theory Spec2Isabelle
  imports Main "HOL-Library.Word"
begin

unbundle bit_operations_syntax

section \<open>Machine integers\<close>

type_synonym u8 = "8 word"
type_synonym u16 = "16 word"
type_synonym u32 = "32 word"
type_synonym u64 = "64 word"

text \<open>
  \<^verbatim>\<open>uint\<close> is the project's name for C's \<^verbatim>\<open>unsigned int\<close>, which has 32 bits on
  every target the sources name (Windows, the BSDs and macOS, glibc, Emscripten).
  Enumeration values are carried in the same type.
\<close>

type_synonym uint = "32 word"

section \<open>The pseudo random generator (random\_func.cpp)\<close>

text \<open>\<^verbatim>\<open>Randomizer\<close> holds \<^verbatim>\<open>uint32_t state[2]\<close>.\<close>

record Randomizer =
  state0 :: u32
  state1 :: u32

text \<open>
  \<^verbatim>\<open>Randomizer::Next()\<close>: reads both words, stores the new \<^verbatim>\<open>state[0]\<close>, then stores and
  returns the new \<^verbatim>\<open>state[1]\<close>. The result is the returned value and the updated generator.
\<close>

definition Next :: "Randomizer \<Rightarrow> u32 \<times> Randomizer" where
  "Next r =
     (let s = state0 r;
          t = state1 r;
          r1 = r\<lparr>state0 := s + word_rotr 7 (t XOR 0x1234567F) + 1\<rparr>;
          v = word_rotr 3 s - 1
      in (v, r1\<lparr>state1 := v\<rparr>))"

text \<open>
  \<^verbatim>\<open>Randomizer::Next(uint32_t limit)\<close>: both factors are widened to 64 bits, the product is
  shifted right by 32 and the result narrowed to the 32-bit return type.
\<close>

definition Next_limit :: "Randomizer \<Rightarrow> u32 \<Rightarrow> u32 \<times> Randomizer" where
  "Next_limit r limit =
     (let (v, r') = Next r
      in (ucast (drop_bit 32 ((ucast v :: u64) * (ucast limit :: u64))), r'))"

definition SetSeed :: "Randomizer \<Rightarrow> u32 \<Rightarrow> Randomizer" where
  "SetSeed r seed = r\<lparr>state0 := seed, state1 := seed\<rparr>"

text \<open>
  The process-wide state of random\_func.cpp: the two generators \<^verbatim>\<open>_random\<close> and
  \<^verbatim>\<open>_interactive_random\<close>, the function-local static \<^verbatim>\<open>warned_once\<close>, and the levels at
  which \<^verbatim>\<open>DEBUG(misc, level, ...)\<close> has been invoked so far, oldest first.
\<close>

record Globals =
  g_random :: Randomizer
  g_interactive_random :: Randomizer
  warned_once :: bool
  debug_log :: "nat list"

definition SetRandomSeed :: "Globals \<Rightarrow> u32 \<Rightarrow> Globals" where
  "SetRandomSeed g seed =
     (let g1 = g\<lparr>g_random := SetSeed (g_random g) seed\<rparr>
      in g1\<lparr>g_interactive_random := SetSeed (g_interactive_random g1) (seed * 0x1234567)\<rparr>)"

subsection \<open>The recurrence in the words of the specification\<close>

text \<open>
  A right rotation of a 32-bit value \<open>x\<close> by \<open>k\<close> places, on natural numbers: the upper
  \<open>32 - k\<close> bits move down and the lower \<open>k\<close> bits move to the top.
\<close>

definition rotr32 :: "nat \<Rightarrow> nat \<Rightarrow> nat" where
  "rotr32 x k = x div 2 ^ k + (x mod 2 ^ k) * 2 ^ (32 - k)"

section \<open>Rail tiles (rail\_map.h)\<close>

datatype error = AssertionFailed

subsection \<open>What the header takes from elsewhere\<close>

text \<open>
  Modelled from the spec: the per-tile record and the tile class test
  (\<^verbatim>\<open>tile.h\<close> and the map module are not among the sources). The specification calls it
  ``an externally defined per-tile record'' held in ``a contiguous array of plain records''
  indexed by the tile. The record keeps the fields that rail\_map.h names (\<^verbatim>\<open>m2\<close> to
  \<^verbatim>\<open>m5\<close>) and the class of the tile, which \<^verbatim>\<open>IsTileType\<close> compares with
  \<^verbatim>\<open>MP_RAILWAY\<close>. The array \<^verbatim>\<open>_m\<close> is a store from tile indices to records; its extent
  is fixed by the map module, and indices are taken to lie within it.
\<close>

datatype TileType = MP_RAILWAY | MP_OTHER

record Tile =
  tiletype :: TileType
  m2 :: u16
  m3 :: u8
  m4 :: u8
  m5 :: u8

type_synonym TileIndex = "32 word"
type_synonym Map = "TileIndex \<Rightarrow> Tile"

definition IsTileType :: "Map \<Rightarrow> TileIndex \<Rightarrow> TileType \<Rightarrow> bool" where
  "IsTileType m t ty = (tiletype (m t) = ty)"

text \<open>
  Modelled from the spec: the ``macros for bit extraction/insertion'' \<^verbatim>\<open>GB\<close>, \<^verbatim>\<open>SB\<close> and
  \<^verbatim>\<open>HASBIT\<close> (\<^verbatim>\<open>macros.h\<close> is not among the sources). \<^verbatim>\<open>GB(x, s, n)\<close> reads the \<open>n\<close> bits of
  \<open>x\<close> that start at bit \<open>s\<close>. \<^verbatim>\<open>SB(x, s, n, d)\<close> inserts \<open>d\<close> at the \<open>n\<close> bits of \<open>x\<close> that
  start at bit \<open>s\<close>: it clears those bits and puts \<open>d\<close>, shifted to bit \<open>s\<close>, in their place. The
  specification states no truncation of \<open>d\<close>, so none is made: a value wider than \<open>n\<close> bits
  reaches the bits above the field. \<^verbatim>\<open>HASBIT(x, y)\<close> tests bit \<open>y\<close> of \<open>x\<close>. The operand of
  \<^verbatim>\<open>GB\<close> and \<^verbatim>\<open>HASBIT\<close> is a byte promoted to \<^verbatim>\<open>int\<close>; the target of \<^verbatim>\<open>SB\<close> is a byte field,
  so the result is narrowed to 8 bits.
\<close>

definition GB :: "uint \<Rightarrow> nat \<Rightarrow> nat \<Rightarrow> uint" where
  "GB x s n = drop_bit s x AND mask n"

definition SB :: "u8 \<Rightarrow> nat \<Rightarrow> nat \<Rightarrow> uint \<Rightarrow> u8" where
  "SB x s n d = ucast ((ucast x AND NOT (push_bit s (mask n))) OR push_bit s d)"

definition HASBIT :: "uint \<Rightarrow> nat \<Rightarrow> bool" where
  "HASBIT x y = (x AND push_bit y 1 \<noteq> 0)"

subsection \<open>Enumerations\<close>

text \<open>\<^verbatim>\<open>enum RailTileType\<close>\<close>

definition RAIL_TYPE_NORMAL :: uint where "RAIL_TYPE_NORMAL = 0x0"
definition RAIL_TYPE_SIGNALS :: uint where "RAIL_TYPE_SIGNALS = 0x40"
definition RAIL_TYPE_UNUSED :: uint where "RAIL_TYPE_UNUSED = 0x80"
definition RAIL_TYPE_DEPOT_WAYPOINT :: uint where "RAIL_TYPE_DEPOT_WAYPOINT = 0xC0"
definition RAIL_TILE_TYPE_MASK :: uint where "RAIL_TILE_TYPE_MASK = 0xC0"

text \<open>\<^verbatim>\<open>enum RailTileSubtypes\<close>\<close>

definition RAIL_SUBTYPE_DEPOT :: uint where "RAIL_SUBTYPE_DEPOT = 0x00"
definition RAIL_SUBTYPE_WAYPOINT :: uint where "RAIL_SUBTYPE_WAYPOINT = 0x04"
definition RAIL_SUBTYPE_MASK :: uint where "RAIL_SUBTYPE_MASK = 0x3C"

text \<open>\<^verbatim>\<open>enum RailTypes\<close>\<close>

definition RAILTYPE_RAIL :: uint where "RAILTYPE_RAIL = 0"
definition RAILTYPE_ELECTRIC :: uint where "RAILTYPE_ELECTRIC = 1"
definition RAILTYPE_MONO :: uint where "RAILTYPE_MONO = 2"
definition RAILTYPE_END :: uint where "RAILTYPE_END = 4"

text \<open>\<^verbatim>\<open>enum Track\<close>\<close>

definition TRACK_X :: uint where "TRACK_X = 0"
definition TRACK_Y :: uint where "TRACK_Y = 1"
definition TRACK_UPPER :: uint where "TRACK_UPPER = 2"
definition TRACK_LOWER :: uint where "TRACK_LOWER = 3"
definition TRACK_LEFT :: uint where "TRACK_LEFT = 4"
definition TRACK_RIGHT :: uint where "TRACK_RIGHT = 5"
definition TRACK_END :: uint where "TRACK_END = 6"
definition INVALID_TRACK :: uint where "INVALID_TRACK = 0xFF"

text \<open>\<^verbatim>\<open>enum TrackBits\<close>: each single bit is \<^verbatim>\<open>1U << track\<close>.\<close>

definition TRACK_BIT_X :: uint where "TRACK_BIT_X = push_bit (unat TRACK_X) 1"
definition TRACK_BIT_Y :: uint where "TRACK_BIT_Y = push_bit (unat TRACK_Y) 1"
definition TRACK_BIT_UPPER :: uint where "TRACK_BIT_UPPER = push_bit (unat TRACK_UPPER) 1"
definition TRACK_BIT_LOWER :: uint where "TRACK_BIT_LOWER = push_bit (unat TRACK_LOWER) 1"
definition TRACK_BIT_LEFT :: uint where "TRACK_BIT_LEFT = push_bit (unat TRACK_LEFT) 1"
definition TRACK_BIT_RIGHT :: uint where "TRACK_BIT_RIGHT = push_bit (unat TRACK_RIGHT) 1"
definition TRACK_BIT_CROSS :: uint where "TRACK_BIT_CROSS = TRACK_BIT_X OR TRACK_BIT_Y"
definition TRACK_BIT_HORZ :: uint where "TRACK_BIT_HORZ = TRACK_BIT_UPPER OR TRACK_BIT_LOWER"
definition TRACK_BIT_VERT :: uint where "TRACK_BIT_VERT = TRACK_BIT_LEFT OR TRACK_BIT_RIGHT"
definition TRACK_BIT_ALL :: uint where
  "TRACK_BIT_ALL = TRACK_BIT_CROSS OR TRACK_BIT_HORZ OR TRACK_BIT_VERT"
definition TRACK_BIT_MASK :: uint where "TRACK_BIT_MASK = 0x3F"

text \<open>\<^verbatim>\<open>enum SignalType\<close> and \<^verbatim>\<open>enum SignalVariant\<close>\<close>

definition SIGTYPE_NORMAL :: uint where "SIGTYPE_NORMAL = 0"
definition SIGTYPE_EXIT :: uint where "SIGTYPE_EXIT = 2"
definition SIGTYPE_COMBO :: uint where "SIGTYPE_COMBO = 3"
definition SIG_ELECTRIC :: uint where "SIG_ELECTRIC = 0"
definition SIG_SEMAPHORE :: uint where "SIG_SEMAPHORE = 1"

subsection \<open>Accessors\<close>

text \<open>
  A failed \<^verbatim>\<open>assert\<close> ends the program: the accessors that assert return
  \<open>Inl AssertionFailed\<close> there, and a setter that fails leaves no map behind. The accessors
  without an \<^verbatim>\<open>assert\<close> have no failing branch and return plain values.
\<close>

definition GetRailTileType :: "Map \<Rightarrow> TileIndex \<Rightarrow> error + uint" where
  "GetRailTileType m t =
     (if IsTileType m t MP_RAILWAY then Inr (ucast (m5 (m t)) AND RAIL_TILE_TYPE_MASK)
      else Inl AssertionFailed)"

definition GetRailType :: "Map \<Rightarrow> TileIndex \<Rightarrow> uint" where
  "GetRailType m t = GB (ucast (m3 (m t))) 0 4"

definition GetRailTypeCrossing :: "Map \<Rightarrow> TileIndex \<Rightarrow> uint" where
  "GetRailTypeCrossing m t = GB (ucast (m4 (m t))) 0 4"

definition GetRailTypeOnBridge :: "Map \<Rightarrow> TileIndex \<Rightarrow> uint" where
  "GetRailTypeOnBridge m t = GB (ucast (m3 (m t))) 4 4"




definition GetTrackBits :: "Map \<Rightarrow> TileIndex \<Rightarrow> uint" where
  "GetTrackBits m tile = GB (ucast (m5 (m tile))) 0 6"

definition SetTrackBits :: "Map \<Rightarrow> TileIndex \<Rightarrow> uint \<Rightarrow> Map" where
  "SetTrackBits m t b = m(t := (m t)\<lparr>m5 := SB (m5 (m t)) 0 6 b\<rparr>)"

definition GetRailDepotDirection :: "Map \<Rightarrow> TileIndex \<Rightarrow> uint" where
  "GetRailDepotDirection m t = GB (ucast (m5 (m t))) 0 2"

definition GetRailWaypointTrack :: "Map \<Rightarrow> TileIndex \<Rightarrow> uint" where
  "GetRailWaypointTrack m t = (if HASBIT (ucast (m5 (m t))) 0 then TRACK_Y else TRACK_X)"

definition GetRailWaypointBits :: "Map \<Rightarrow> TileIndex \<Rightarrow> uint" where
  "GetRailWaypointBits m t =
     (if (ucast (m5 (m t)) :: uint) AND 1 \<noteq> 0 then TRACK_BIT_Y else TRACK_BIT_X)"

definition GetSignalType :: "Map \<Rightarrow> TileIndex \<Rightarrow> error + uint" where
  "GetSignalType m t =
     (case GetRailTileType m t of
        Inl e \<Rightarrow> Inl e
      | Inr ty \<Rightarrow>
          if ty = RAIL_TYPE_SIGNALS then Inr (GB (ucast (m4 (m t))) 0 2)
          else Inl AssertionFailed)"

definition SetSignalType :: "Map \<Rightarrow> TileIndex \<Rightarrow> uint \<Rightarrow> error + Map" where
  "SetSignalType m t s =
     (case GetRailTileType m t of
        Inl e \<Rightarrow> Inl e
      | Inr ty \<Rightarrow>
          if ty = RAIL_TYPE_SIGNALS then Inr (m(t := (m t)\<lparr>m4 := SB (m4 (m t)) 0 2 s\<rparr>))
          else Inl AssertionFailed)"

definition GetSignalVariant :: "Map \<Rightarrow> TileIndex \<Rightarrow> uint" where
  "GetSignalVariant m t = GB (ucast (m4 (m t))) 2 1"


section \<open>Road vehicles (roadveh.h)\<close>

text \<open>
  Modelled from the spec: the vehicle record (\<^verbatim>\<open>vehicle.h\<close> is not among the sources).
  The specification speaks of ``a single sentinel state value (254)'' read ``from vehicle
  state not defined in this excerpt''. The record keeps what roadveh.h reads: the vehicle's
  type, its status byte and the byte \<^verbatim>\<open>u.road.state\<close>.
\<close>

datatype VehicleType = VEH_Road | VEH_Other

record Vehicle =
  vtype :: VehicleType
  vehstatus :: u8
  road_state :: u8

definition IsRoadVehInDepot :: "Vehicle \<Rightarrow> error + bool" where
  "IsRoadVehInDepot v =
     (if vtype v = VEH_Road then Inr (road_state v = 254) else Inl AssertionFailed)"

section \<open>Random bytes with a fallback (random\_func.cpp)\<close>

subsection \<open>The caller's buffer\<close>

text \<open>
  \<^verbatim>\<open>std::span<uint8_t> buf\<close> is a view of the caller's bytes. Beside the bytes the model
  records the set of indices that have been stored to since the call began.
\<close>

record buffer =
  bytes :: "u8 list"
  written :: "nat set"

subsection \<open>What lies outside the program\<close>

text \<open>
  The preprocessor selects one of five bodies for the first part of the function. The
  branch for \<^verbatim>\<open>_WIN32\<close> calls \<^verbatim>\<open>BCryptGenRandom\<close>, the one for macOS and the BSDs
  \<^verbatim>\<open>arc4random_buf\<close>, the one for glibc from 2.25 on \<^verbatim>\<open>getrandom\<close>, the one for Emscripten
  asks \<^verbatim>\<open>window.crypto\<close>; any other target has no source at all.
\<close>

datatype platform = WIN32 | ARC4RANDOM | GETRANDOM | EMSCRIPTEN | NO_SOURCE

text \<open>
  The surroundings of one call: the build target, the value \<open>os_res\<close> that the platform
  call returns (for Emscripten: positive when \<^verbatim>\<open>crypto.getRandomValues\<close> exists), the bytes
  \<open>os_bytes\<close> the platform source delivers, the readings of the steady clock (one for
  each pass of the fallback loop), and the hash function.
\<close>

text \<open>
  Modelled from the spec: \<^verbatim>\<open>SimpleHash64\<close> (\<^verbatim>\<open>hash_func.hpp\<close>) and \<^verbatim>\<open>InteractiveRandom\<close>
  (\<^verbatim>\<open>random_func.hpp\<close>) are not among the sources. The specification describes the fallback
  as ``hashing a monotonic timestamp XORed with output of the UI-side pseudo-random
  generator'': the hash is a parameter of the model, and \<^verbatim>\<open>InteractiveRandom()\<close> is
  \<^verbatim>\<open>_interactive_random.Next()\<close>.
\<close>

record call_env =
  platform :: platform
  os_res :: int
  os_bytes :: "nat \<Rightarrow> u8"
  steady_clock :: "nat \<Rightarrow> u64"
  SimpleHash64 :: "u64 \<Rightarrow> u64"

text \<open>
  The platform source stores \<open>k\<close> bytes at the start of the buffer (never beyond its end).
\<close>

definition os_write :: "nat \<Rightarrow> (nat \<Rightarrow> u8) \<Rightarrow> buffer \<Rightarrow> buffer" where
  "os_write k src b =
     (let n = min k (length (bytes b))
      in b\<lparr>bytes := map src [0..<n] @ drop n (bytes b), written := written b \<union> {0..<n}\<rparr>)"

text \<open>
  The first part of \<^verbatim>\<open>RandomBytesWithFallback\<close>, up to the last \<^verbatim>\<open>#endif\<close>. The result is
  the buffer after the platform call and whether the function returns at this point.
  The platform calls behave as documented: \<^verbatim>\<open>BCryptGenRandom\<close> fills the \<^verbatim>\<open>ULONG\<close> count it
  is given when it reports success (a non-negative status); \<^verbatim>\<open>arc4random_buf\<close> always
  fills the count it is given; \<^verbatim>\<open>getrandom\<close> returns the number of bytes it has stored, or
  a negative value; the Emscripten block returns \<open>-1\<close> without \<^verbatim>\<open>crypto.getRandomValues\<close>
  and otherwise fills the buffer and returns \<open>1\<close>. The cast \<^verbatim>\<open>static_cast<ULONG>\<close> keeps the
  low 32 bits of \<^verbatim>\<open>buf.size()\<close>.
\<close>

definition platform_random :: "call_env \<Rightarrow> buffer \<Rightarrow> buffer \<times> bool" where
  "platform_random env b =
     (let size = length (bytes b) in
      case platform env of
        WIN32 \<Rightarrow>
          (let res = os_res env
           in if 0 \<le> res then (os_write (size mod 2 ^ 32) (os_bytes env) b, True)
              else (b, False))
      | ARC4RANDOM \<Rightarrow> (os_write size (os_bytes env) b, True)
      | GETRANDOM \<Rightarrow>
          (let res = os_res env;
               b' = (if 0 < res then os_write (nat res) (os_bytes env) b else b)
           in (b', 0 < res \<and> nat res = size))
      | EMSCRIPTEN \<Rightarrow>
          (let res = (if 0 < os_res env then 1 else - 1 :: int)
           in if 0 < res then (os_write size (os_bytes env) b, True) else (b, False))
      | NO_SOURCE \<Rightarrow> (b, False))"

subsection \<open>The fallback\<close>

text \<open>
  One pass of the loop body: read the clock, draw from \<^verbatim>\<open>_interactive_random\<close>, hash, and
  store the low byte of the hash at index \<open>i\<close>.
\<close>

definition fallback_step :: "call_env \<Rightarrow> uint \<Rightarrow> buffer \<times> Globals \<Rightarrow> buffer \<times> Globals" where
  "fallback_step env i s =
     (case s of (b, g) \<Rightarrow>
        let current_time = steady_clock env (unat i);
            (r, rnd) = Next (g_interactive_random g);
            v = (ucast (SimpleHash64 env (current_time XOR ucast r)) :: u8)
        in (b\<lparr>bytes := (bytes b)[unat i := v], written := insert (unat i) (written b)\<rparr>,
            g\<lparr>g_interactive_random := rnd\<rparr>))"

text \<open>
  \<^verbatim>\<open>for (uint i = 0; i < buf.size(); i ++)\<close>: the counter is a 32-bit \<^verbatim>\<open>uint\<close> and wraps
  around, while \<^verbatim>\<open>buf.size()\<close> is a \<^verbatim>\<open>size_t\<close>; the comparison is made at the wider type.
  A loop that never ends has the value \<open>None\<close>.
\<close>

partial_function (option) fallback_loop ::
  "call_env \<Rightarrow> uint \<Rightarrow> buffer \<times> Globals \<Rightarrow> (buffer \<times> Globals) option" where
  "fallback_loop env i s =
     (if unat i < length (bytes (fst s)) then fallback_loop env (i + 1) (fallback_step env i s)
      else Some s)"

text \<open>
  \<^verbatim>\<open>RandomBytesWithFallback\<close>: the platform source first; otherwise the exchange on
  \<^verbatim>\<open>warned_once\<close>, the \<^verbatim>\<open>DEBUG\<close> line at level 0 or 1, and the loop.
\<close>

definition RandomBytesWithFallback ::
  "call_env \<Rightarrow> u8 list \<Rightarrow> Globals \<Rightarrow> (buffer \<times> Globals) option" where
  "RandomBytesWithFallback env buf g =
     (let (b, returned) = platform_random env \<lparr>bytes = buf, written = {}\<rparr>
      in if returned then Some (b, g)
         else
           let have_warned = warned_once g;
               g1 = g\<lparr>warned_once := True\<rparr>;
               g2 = g1\<lparr>debug_log := debug_log g1 @ [if have_warned then 1 else 0]\<rparr>
           in fallback_loop env 0 (b, g2))"

text \<open>A sequence of calls, each with its own surroundings and buffer, one after the other.\<close>

fun run_calls :: "(call_env \<times> u8 list) list \<Rightarrow> Globals \<Rightarrow> Globals option" where
  "run_calls [] g = Some g"
| "run_calls ((env, buf) # cs) g =
     (case RandomBytesWithFallback env buf g of
        None \<Rightarrow> None
      | Some (b, g') \<Rightarrow> run_calls cs g')"

text \<open>A call reaches the fallback when the first part does not return.\<close>

definition reaches_fallback :: "call_env \<times> u8 list \<Rightarrow> bool" where
  "reaches_fallback c = (\<not> snd (platform_random (fst c) \<lparr>bytes = snd c, written = {}\<rparr>))"

text \<open>
  The warning in the words of the specification: it ``prints at most with full detail once,
  then demoted verbosity''. The levels of \<open>k\<close> successive warnings are level 0 once and
  level 1 from then on when no warning has been given before, and level 1 throughout
  otherwise.
\<close>

definition warning_levels :: "bool \<Rightarrow> nat \<Rightarrow> nat list" where
  "warning_levels warned k =
     (if warned then replicate k 1 else case k of 0 \<Rightarrow> [] | Suc j \<Rightarrow> 0 # replicate j 1)"

section \<open>Properties of the generator\<close>

lemma uint_word_rotr32:
  assumes "k < 32"
  shows "uint (word_rotr k (x::u32)) = uint x div 2 ^ k + (uint x mod 2 ^ k) * 2 ^ (32 - k)"
proof -
  have "take_bit (32 - k) (drop_bit k (uint x)) = drop_bit k (take_bit 32 (uint x))"
    using assms by (simp add: take_bit_drop_bit)
  also have "take_bit 32 (uint x) = uint x"
    using uint_bounded [of x] by (simp add: take_bit_int_eq_self)
  finally have tb: "take_bit (32 - k) (drop_bit k (uint x)) = drop_bit k (uint x)" .
  have "uint (word_rotr k x) = concat_bit (32 - k) (drop_bit k (uint x)) (uint (take_bit k x))"
    using assms by (simp add: uint_word_rotr_eq)
  also have "\<dots> = drop_bit k (uint x) + push_bit (32 - k) (take_bit k (uint x))"
    by (simp add: concat_bit_eq tb unsigned_take_bit_eq)
  finally show ?thesis
    by (simp add: drop_bit_eq_div push_bit_eq_mult take_bit_eq_mod)
qed

lemma unat_word_rotr32:
  assumes "k < 32"
  shows "unat (word_rotr k (x::u32)) = rotr32 (unat x) k"
proof -
  have "int (unat (word_rotr k x)) = int (rotr32 (unat x) k)"
    using uint_word_rotr32 [OF assms, of x] by (simp add: rotr32_def zdiv_int zmod_int)
  then show ?thesis by (simp only: of_nat_eq_iff)
qed

lemma unat_pred_u32: "unat (x - 1 :: u32) = (unat x + 2 ^ 32 - 1) mod 2 ^ 32"
proof (cases "x = 0")
  case True
  then show ?thesis by (simp add: unsigned_minus_1_eq_mask mask_eq_exp_minus_1)
next
  case False
  then have "unat x \<noteq> 0" by (simp add: unat_eq_0)
  moreover have "unat x < 2 ^ 32" using unsigned_less [of x] by simp
  ultimately have "unat x + 2 ^ 32 - 1 = (unat x - 1) + 1 * 2 ^ 32" and "unat x - 1 < 2 ^ 32"
    by simp_all
  then have "(unat x + 2 ^ 32 - 1) mod 2 ^ 32 = unat x - 1"
    by (simp only: mod_mult_self1 mod_less)
  then show ?thesis using unat_minus_one [OF False] by simp
qed

lemma unat_add_succ_u32: "unat (x + y + 1 :: u32) = (unat x + unat y + 1) mod 2 ^ 32"
  by (simp add: unat_word_ariths mod_simps)

lemma unat_mul_high_u32:
  "unat (ucast (drop_bit 32 ((ucast (v::u32) :: u64) * ucast (limit::u32))) :: u32)
     = unat v * unat limit div 2 ^ 32"
proof -
  have v: "unat v < 2 ^ 32" and l: "unat limit < 2 ^ 32"
    using unsigned_less [of v] unsigned_less [of limit] by simp_all
  have uv: "unat (ucast v :: u64) = unat v" and ul: "unat (ucast limit :: u64) = unat limit"
    using v l by (simp_all add: unsigned_ucast_eq take_bit_nat_eq_self)
  have "unat v * unat limit < 2 ^ 32 * 2 ^ 32"
    using v l by (rule mult_strict_mono') simp_all
  then have p: "unat v * unat limit < 2 ^ 64" by simp
  then have "unat ((ucast v :: u64) * ucast limit) = unat v * unat limit"
    by (simp add: unat_word_ariths uv ul)
  then have d: "unat (drop_bit 32 ((ucast v :: u64) * ucast limit)) = unat v * unat limit div 2 ^ 32"
    by (simp only: unat_drop_bit_eq) (simp only: drop_bit_eq_div)
  have "unat v * unat limit div 2 ^ 32 < 2 ^ 32"
    using p by (simp add: less_mult_imp_div_less)
  then show ?thesis by (simp add: unsigned_ucast_eq d take_bit_nat_eq_self)
qed

text \<open>
  Claim C1. One call of \<^verbatim>\<open>Randomizer::Next()\<close> on the state words \<open>(s0, s1)\<close> stores
  \<open>s0' = s0 + rotr(s1 XOR 0x1234567F, 7) + 1\<close> and \<open>s1' = rotr(s0, 3) - 1\<close>, both computed
  modulo \<open>2^32\<close> from the words as they were before the call, and returns the new \<open>s1'\<close>.
\<close>

theorem Next_recurrence:
  "unat (state0 (snd (Next r)))
     = (unat (state0 r) + rotr32 (unat (state1 r XOR 0x1234567F)) 7 + 1) mod 2 ^ 32
   \<and> unat (state1 (snd (Next r))) = (rotr32 (unat (state0 r)) 3 + 2 ^ 32 - 1) mod 2 ^ 32
   \<and> fst (Next r) = state1 (snd (Next r))"
proof -
  have "unat (state0 r + word_rotr 7 (state1 r XOR 0x1234567F) + 1)
          = (unat (state0 r) + rotr32 (unat (state1 r XOR 0x1234567F)) 7 + 1) mod 2 ^ 32"
    by (simp only: unat_add_succ_u32) (simp add: unat_word_rotr32)
  moreover have "unat (word_rotr 3 (state0 r) - 1) = (rotr32 (unat (state0 r)) 3 + 2 ^ 32 - 1) mod 2 ^ 32"
    by (simp only: unat_pred_u32) (simp add: unat_word_rotr32)
  ultimately show ?thesis
    by (simp add: Next_def Let_def)
qed

text \<open>
  Claim C3. For every generator state and every \<open>limit > 0\<close>, \<^verbatim>\<open>Next(limit)\<close> returns the
  high 32 bits of the 64-bit product of the raw \<^verbatim>\<open>Next()\<close> output and \<open>limit\<close>; the value
  lies in \<open>[0, limit)\<close>, and the generator advances exactly as \<^verbatim>\<open>Next()\<close> advances it.
\<close>

theorem Next_limit_range:
  assumes "0 < limit"
  shows "unat (fst (Next_limit r limit)) = unat (fst (Next r)) * unat limit div 2 ^ 32
       \<and> unat (fst (Next_limit r limit)) < unat limit
       \<and> fst (Next_limit r limit) < limit
       \<and> snd (Next_limit r limit) = snd (Next r)"
proof -
  obtain v r' where n: "Next r = (v, r')" by (cases "Next r")
  have val: "unat (fst (Next_limit r limit)) = unat v * unat limit div 2 ^ 32"
    by (simp add: Next_limit_def n unat_mul_high_u32)
  have "unat v < 2 ^ 32" using unsigned_less [of v] by simp
  moreover have "0 < unat limit" using assms by (simp add: word_greater_zero_iff unat_gt_0)
  ultimately have "unat v * unat limit < unat limit * 2 ^ 32"
    by (simp add: mult.commute)
  then have lt: "unat v * unat limit div 2 ^ 32 < unat limit"
    by (simp add: less_mult_imp_div_less)
  show ?thesis
    using val lt by (simp add: n word_less_nat_alt Next_limit_def)
qed

theorem Next_limit_range_witness:
  "(0::u32) < 10
   \<and> fst (Next \<lparr>state0 = 1, state1 = 2\<rparr>) = 0x1FFFFFFF
   \<and> fst (Next_limit \<lparr>state0 = 1, state1 = 2\<rparr> 10) = 1
   \<and> unat (fst (Next_limit \<lparr>state0 = 1, state1 = 2\<rparr> 10)) < unat (10::u32)"
proof -
  have h: "(0::u32) < 10" by simp
  have v: "fst (Next \<lparr>state0 = 1, state1 = 2\<rparr>) = 0x1FFFFFFF"
    by code_simp
  show ?thesis
    using h v Next_limit_range [OF h, of "\<lparr>state0 = 1, state1 = 2\<rparr>"]
    by (simp add: word_unat_eq_iff)
qed

text \<open>
  Claim C7. \<^verbatim>\<open>SetSeed(seed)\<close> stores \<open>seed\<close> in both state words. \<^verbatim>\<open>SetRandomSeed(seed)\<close>
  seeds \<^verbatim>\<open>_random\<close> with \<open>seed\<close> and \<^verbatim>\<open>_interactive_random\<close> with \<open>seed * 0x1234567\<close>
  modulo \<open>2^32\<close>, and touches nothing else of the global state.
\<close>

theorem SetRandomSeed_seeds:
  "state0 (SetSeed r seed) = seed \<and> state1 (SetSeed r seed) = seed
   \<and> state0 (g_random (SetRandomSeed g seed)) = seed
   \<and> state1 (g_random (SetRandomSeed g seed)) = seed
   \<and> state0 (g_interactive_random (SetRandomSeed g seed))
        = state1 (g_interactive_random (SetRandomSeed g seed))
   \<and> unat (state0 (g_interactive_random (SetRandomSeed g seed)))
        = unat seed * 0x1234567 mod 2 ^ 32
   \<and> warned_once (SetRandomSeed g seed) = warned_once g
   \<and> debug_log (SetRandomSeed g seed) = debug_log g"
  by (simp add: SetRandomSeed_def SetSeed_def Let_def unat_word_ariths)

section \<open>Properties of the rail tile accessors\<close>

lemma bit_SB:
  "bit (SB x s n d) k \<longleftrightarrow>
     k < 8 \<and> ((\<not> (s \<le> k \<and> k < s + n) \<and> bit x k) \<or> (s \<le> k \<and> bit d (k - s)))"
  by (auto simp add: SB_def bit_simps)

lemma bit_GB: "bit (GB x s n) k \<longleftrightarrow> k < n \<and> bit x (s + k)"
  by (auto simp add: GB_def bit_simps dest: bit_imp_le_length)

lemma GB_SB:
  assumes "s + n \<le> 8"
  shows "GB (ucast (SB x s n d)) s n = d AND mask n"
proof (rule bit_word_eqI)
  fix k assume "k < LENGTH(32)"
  show "bit (GB (ucast (SB x s n d)) s n) k = bit (d AND mask n) k"
    using assms by (auto simp add: bit_GB bit_SB bit_simps)
qed

text \<open>Whatever value is stored, reading the track bits back gives its low six bits.\<close>

lemma GetTrackBits_SetTrackBits: "GetTrackBits (SetTrackBits m t b) t = b AND 0x3F"
proof -
  have "GetTrackBits (SetTrackBits m t b) t = b AND mask 6"
    by (simp add: GetTrackBits_def SetTrackBits_def GB_SB)
  then show ?thesis by (simp add: mask_eq_exp_minus_1)
qed

text \<open>
  Claim C5. For every map, every tile \<open>t\<close> and every track-bit value \<open>b\<close> with
  \<open>0 \<le> b < 64\<close>, \<^verbatim>\<open>SetTrackBits(t, b)\<close> followed by \<^verbatim>\<open>GetTrackBits(t)\<close> returns exactly \<open>b\<close>.
\<close>

theorem SetTrackBits_GetTrackBits_roundtrip:
  assumes "b < 64"
  shows "GetTrackBits (SetTrackBits m t b) t = b"
proof -
  have "b < 2 ^ 6" using assms by simp
  then have "b AND mask 6 = b" by (rule less_mask_eq)
  then show ?thesis
    by (simp add: GetTrackBits_def SetTrackBits_def GB_SB)
qed

theorem SetTrackBits_GetTrackBits_roundtrip_witness:
  "(0x25::uint) < 64
   \<and> GetTrackBits (SetTrackBits
        (\<lambda>_. \<lparr>tiletype = MP_RAILWAY, m2 = 0, m3 = 0, m4 = 0, m5 = 0xC2\<rparr>) 7 0x25) 7 = 0x25
   \<and> m5 (SetTrackBits
        (\<lambda>_. \<lparr>tiletype = MP_RAILWAY, m2 = 0, m3 = 0, m4 = 0, m5 = 0xC2\<rparr>) 7 0x25 7) = 0xE5"
proof -
  have h: "(0x25::uint) < 64" by simp
  have "m5 (SetTrackBits
          (\<lambda>_. \<lparr>tiletype = MP_RAILWAY, m2 = 0, m3 = 0, m4 = 0, m5 = 0xC2\<rparr>) 7 0x25 7) = 0xE5"
    by (simp add: SetTrackBits_def SB_def mask_eq_exp_minus_1)
  then show ?thesis
    using h SetTrackBits_GetTrackBits_roundtrip
      [OF h, of "\<lambda>_. \<lparr>tiletype = MP_RAILWAY, m2 = 0, m3 = 0, m4 = 0, m5 = 0xC2\<rparr>" 7]
    by simp
qed

text \<open>
  Claim C10. For every tile, \<^verbatim>\<open>GetRailWaypointBits\<close> is the single track bit of
  \<^verbatim>\<open>GetRailWaypointTrack\<close>, that is \<^verbatim>\<open>1 << track\<close>: both decide on bit 0 of \<^verbatim>\<open>m5\<close>, giving
  \<^verbatim>\<open>TRACK_Y\<close> and \<^verbatim>\<open>TRACK_BIT_Y\<close> when it is set, \<^verbatim>\<open>TRACK_X\<close> and \<^verbatim>\<open>TRACK_BIT_X\<close> when it is
  clear.
\<close>

theorem GetRailWaypointBits_of_track:
  "GetRailWaypointBits m t = push_bit (unat (GetRailWaypointTrack m t)) 1
   \<and> (if bit (m5 (m t)) 0
       then GetRailWaypointTrack m t = TRACK_Y \<and> GetRailWaypointBits m t = TRACK_BIT_Y
       else GetRailWaypointTrack m t = TRACK_X \<and> GetRailWaypointBits m t = TRACK_BIT_X)"
proof -
  have "bit (ucast (m5 (m t)) :: uint) 0 \<longleftrightarrow> bit (m5 (m t)) 0"
    by (simp add: bit_ucast_iff)
  then have "(ucast (m5 (m t)) :: uint) AND 1 \<noteq> 0 \<longleftrightarrow> bit (m5 (m t)) 0"
    by (simp add: and_one_eq bit_0 mod_2_eq_odd)
  then show ?thesis
    by (simp add: GetRailWaypointBits_def GetRailWaypointTrack_def HASBIT_def
        TRACK_BIT_Y_def TRACK_BIT_X_def TRACK_X_def TRACK_Y_def)
qed

lemma GetRailTileType_signals_iff:
  "GetRailTileType m t = Inr RAIL_TYPE_SIGNALS
     \<longleftrightarrow> tiletype (m t) = MP_RAILWAY \<and> m5 (m t) AND 0xC0 = 0x40"
proof -
  have "(ucast (m5 (m t)) :: uint) AND 0xC0 = 0x40 \<longleftrightarrow> m5 (m t) AND 0xC0 = 0x40"
  proof -
    have "(ucast (m5 (m t)) :: uint) AND 0xC0 = ucast (m5 (m t) AND 0xC0)"
      by (rule bit_word_eqI) (auto simp add: bit_simps dest: bit_imp_le_length)
    moreover have "unat (m5 (m t) AND 0xC0) < 2 ^ 32"
      using unsigned_less [of "m5 (m t) AND 0xC0", where 'a = nat] by simp
    then have "(ucast (m5 (m t) AND 0xC0) :: uint) = 0x40 \<longleftrightarrow> m5 (m t) AND 0xC0 = 0x40"
      using word_unat_eq_iff [of "m5 (m t) AND 0xC0" "0x40"]
        word_unat_eq_iff [of "ucast (m5 (m t) AND 0xC0) :: uint" "0x40"]
      by (simp add: unsigned_ucast_eq take_bit_nat_eq_self)
    ultimately show ?thesis by simp
  qed
  then show ?thesis
    by (auto simp add: GetRailTileType_def IsTileType_def RAIL_TYPE_SIGNALS_def
        RAIL_TILE_TYPE_MASK_def)
qed

lemma GB_byte: "s + n \<le> 8 \<Longrightarrow> GB (ucast (x::u8)) s n = ucast (drop_bit s x AND mask n)"
  by (rule bit_word_eqI) (auto simp add: bit_GB bit_simps)

text \<open>
  Claim C4, as the code has it. Only the signal-type accessors check the discriminant:
  \<^verbatim>\<open>GetSignalType\<close> and \<^verbatim>\<open>SetSignalType\<close> assert that the tile is a railway tile whose rail
  tile type (\<^verbatim>\<open>m5 & 0xC0\<close>) is \<^verbatim>\<open>RAIL_TYPE_SIGNALS\<close>. On such a tile \<^verbatim>\<open>GetSignalType\<close> returns
  bits 0 and 1 of \<^verbatim>\<open>m4\<close> and \<^verbatim>\<open>SetSignalType\<close> stores into them; on every other tile both
  take the assertion-failure branch, so no value is returned and nothing is written.
\<close>

theorem signal_type_accessors_assert:
  "(if tiletype (m t) = MP_RAILWAY \<and> m5 (m t) AND 0xC0 = 0x40
    then GetRailTileType m t = Inr RAIL_TYPE_SIGNALS
       \<and> GetSignalType m t = Inr (ucast (m4 (m t) AND 3))
       \<and> SetSignalType m t s = Inr (m(t := (m t)\<lparr>m4 := SB (m4 (m t)) 0 2 s\<rparr>))
    else GetRailTileType m t \<noteq> Inr RAIL_TYPE_SIGNALS
       \<and> GetSignalType m t = Inl AssertionFailed
       \<and> SetSignalType m t s = Inl AssertionFailed)"
proof (cases "GetRailTileType m t = Inr RAIL_TYPE_SIGNALS")
  case True
  have "GB (ucast (m4 (m t))) 0 2 = ucast (m4 (m t) AND 3)"
    by (simp add: GB_byte mask_eq_exp_minus_1)
  with True show ?thesis
    using GetRailTileType_signals_iff [of m t]
    by (simp add: GetSignalType_def SetSignalType_def)
next
  case False
  then have "GetSignalType m t = Inl AssertionFailed \<and> SetSignalType m t s = Inl AssertionFailed"
    by (cases "GetRailTileType m t")
      (auto simp add: GetSignalType_def SetSignalType_def GetRailTileType_def split: if_splits)
  with False show ?thesis
    using GetRailTileType_signals_iff [of m t] by simp
qed

theorem signal_type_accessors_assert_witness:
  "GetSignalType (\<lambda>_. \<lparr>tiletype = MP_RAILWAY, m2 = 0, m3 = 0, m4 = 0x07, m5 = 0x41\<rparr>) 0
     = Inr SIGTYPE_COMBO
   \<and> GetSignalType (\<lambda>_. \<lparr>tiletype = MP_RAILWAY, m2 = 0, m3 = 0, m4 = 0x07, m5 = 0x01\<rparr>) 0
     = Inl AssertionFailed
   \<and> SetSignalType (\<lambda>_. \<lparr>tiletype = MP_RAILWAY, m2 = 0, m3 = 0, m4 = 0x07, m5 = 0xC1\<rparr>) 0
        SIGTYPE_EXIT
     = Inl AssertionFailed
   \<and> GetSignalType (\<lambda>_. \<lparr>tiletype = MP_OTHER, m2 = 0, m3 = 0, m4 = 0x07, m5 = 0x41\<rparr>) 0
     = Inl AssertionFailed"
  using
    signal_type_accessors_assert
      [of "\<lambda>_. \<lparr>tiletype = MP_RAILWAY, m2 = 0, m3 = 0, m4 = 0x07, m5 = 0x41\<rparr>" 0 0]
    signal_type_accessors_assert
      [of "\<lambda>_. \<lparr>tiletype = MP_RAILWAY, m2 = 0, m3 = 0, m4 = 0x07, m5 = 0x01\<rparr>" 0 0]
    signal_type_accessors_assert
      [of "\<lambda>_. \<lparr>tiletype = MP_RAILWAY, m2 = 0, m3 = 0, m4 = 0x07, m5 = 0xC1\<rparr>" 0 SIGTYPE_EXIT]
    signal_type_accessors_assert
      [of "\<lambda>_. \<lparr>tiletype = MP_OTHER, m2 = 0, m3 = 0, m4 = 0x07, m5 = 0x41\<rparr>" 0 0]
  by (simp add: SIGTYPE_COMBO_def)

text \<open>
  The claim as written fails: on a plain rail tile (rail tile type \<^verbatim>\<open>RAIL_TYPE_NORMAL\<close>,
  neither signals nor depot) \<^verbatim>\<open>GetSignalVariant\<close> and \<^verbatim>\<open>GetRailDepotDirection\<close> return values
  read from the bytes; no assertion stands in their way.
\<close>

theorem accessors_without_assert_counterexample:
  "GetRailTileType (\<lambda>_. \<lparr>tiletype = MP_RAILWAY, m2 = 0, m3 = 0, m4 = 0x07, m5 = 0x01\<rparr>) 0
     = Inr RAIL_TYPE_NORMAL
   \<and> RAIL_TYPE_NORMAL \<noteq> RAIL_TYPE_SIGNALS
   \<and> RAIL_TYPE_NORMAL \<noteq> RAIL_TYPE_DEPOT_WAYPOINT
   \<and> GetSignalVariant (\<lambda>_. \<lparr>tiletype = MP_RAILWAY, m2 = 0, m3 = 0, m4 = 0x07, m5 = 0x01\<rparr>) 0
     = SIG_SEMAPHORE
   \<and> GetRailDepotDirection (\<lambda>_. \<lparr>tiletype = MP_RAILWAY, m2 = 0, m3 = 0, m4 = 0x07, m5 = 0x01\<rparr>) 0
     = 1"
  by (simp add: GetRailTileType_def IsTileType_def RAIL_TILE_TYPE_MASK_def RAIL_TYPE_NORMAL_def
      RAIL_TYPE_SIGNALS_def RAIL_TYPE_DEPOT_WAYPOINT_def GetSignalVariant_def
      GetRailDepotDirection_def GB_def SIG_SEMAPHORE_def mask_eq_exp_minus_1)













section \<open>Properties of the road vehicle test\<close>

text \<open>
  Claim C8. For every vehicle whose type is \<^verbatim>\<open>VEH_Road\<close> (the asserted precondition),
  \<^verbatim>\<open>IsRoadVehInDepot\<close> returns true exactly when the road state equals the sentinel 254.
\<close>

theorem IsRoadVehInDepot_sentinel:
  assumes "vtype v = VEH_Road"
  shows "IsRoadVehInDepot v = Inr (unat (road_state v) = 254)"
  using assms by (simp add: IsRoadVehInDepot_def word_unat_eq_iff)

theorem IsRoadVehInDepot_sentinel_witness:
  "IsRoadVehInDepot \<lparr>vtype = VEH_Road, vehstatus = 0, road_state = 254\<rparr> = Inr True
   \<and> IsRoadVehInDepot \<lparr>vtype = VEH_Road, vehstatus = 0, road_state = 253\<rparr> = Inr False"
  using IsRoadVehInDepot_sentinel [of "\<lparr>vtype = VEH_Road, vehstatus = 0, road_state = 254\<rparr>"]
    IsRoadVehInDepot_sentinel [of "\<lparr>vtype = VEH_Road, vehstatus = 0, road_state = 253\<rparr>"]
  by simp

section \<open>Properties of the random byte fill\<close>

lemma fallback_step_fst:
  "fst (fallback_step env i (b, g))
     = b\<lparr>bytes := (bytes b)[unat i :=
            ucast (SimpleHash64 env (steady_clock env (unat i)
                     XOR ucast (fst (Next (g_interactive_random g)))))],
          written := insert (unat i) (written b)\<rparr>"
  by (simp add: fallback_step_def Let_def split: prod.split)

lemma fallback_step_snd:
  "snd (fallback_step env i (b, g)) = g\<lparr>g_interactive_random := snd (Next (g_interactive_random g))\<rparr>"
  by (simp add: fallback_step_def Let_def split: prod.split)

lemma length_fallback_step [simp]:
  "length (bytes (fst (fallback_step env i s))) = length (bytes (fst s))"
  by (cases s) (simp add: fallback_step_fst)

lemma fallback_loop_returns_imp:
  assumes "fallback_loop env i s = Some y"
  shows "length (bytes (fst s)) < 2 ^ 32"
proof (rule fallback_loop.raw_induct
    [where P = "\<lambda>env i s y. length (bytes (fst s)) < 2 ^ 32", OF _ assms])
  fix loop :: "call_env \<Rightarrow> uint \<Rightarrow> buffer \<times> Globals \<Rightarrow> (buffer \<times> Globals) option"
  fix env i s y
  assume IH: "\<And>env i s y. loop env i s = Some y \<Longrightarrow> length (bytes (fst s)) < 2 ^ 32"
  assume eq: "(if unat i < length (bytes (fst s))
               then loop env (i + 1) (fallback_step env i s) else Some s) = Some y"
  show "length (bytes (fst s)) < 2 ^ 32"
  proof (cases "unat i < length (bytes (fst s))")
    case True
    with eq have "loop env (i + 1) (fallback_step env i s) = Some y" by simp
    then have "length (bytes (fst (fallback_step env i s))) < 2 ^ 32" by (rule IH)
    then show ?thesis by simp
  next
    case False
    moreover have "unat i < 2 ^ 32" using unsigned_less [of i] by simp
    ultimately show ?thesis by simp
  qed
qed

lemma fallback_loop_never_returns:
  assumes "2 ^ 32 \<le> length (bytes (fst s))"
  shows "fallback_loop env i s = None"
proof (cases "fallback_loop env i s")
  case None
  then show ?thesis .
next
  case (Some y)
  then have "length (bytes (fst s)) < 2 ^ 32" by (rule fallback_loop_returns_imp)
  with assms show ?thesis by simp
qed

lemma fallback_loop_fills:
  assumes "length (bytes b) < 2 ^ 32" and "unat i \<le> length (bytes b)"
  shows "\<exists>b' g'. fallback_loop env i (b, g) = Some (b', g')
           \<and> length (bytes b') = length (bytes b)
           \<and> written b' = written b \<union> {unat i..<length (bytes b)}
           \<and> g_random g' = g_random g
           \<and> warned_once g' = warned_once g
           \<and> debug_log g' = debug_log g"
  using assms
proof (induction "length (bytes b) - unat i" arbitrary: i b g)
  case 0
  then have "\<not> unat i < length (bytes b)" by simp
  then have "fallback_loop env i (b, g) = Some (b, g)"
    by (subst fallback_loop.simps) simp
  moreover have "{unat i..<length (bytes b)} = {}" using 0 by simp
  ultimately show ?case by simp
next
  case (Suc d)
  then have lt: "unat i < length (bytes b)" by simp
  obtain b1 g1 where st: "fallback_step env i (b, g) = (b1, g1)"
    by (cases "fallback_step env i (b, g)")
  have b1: "b1 = fst (fallback_step env i (b, g))" and g1: "g1 = snd (fallback_step env i (b, g))"
    by (simp_all add: st)
  have len: "length (bytes b1) = length (bytes b)" by (simp add: b1)
  have wr: "written b1 = insert (unat i) (written b)" by (simp add: b1 fallback_step_fst)
  have "unat i + 1 < 2 ^ 32" using lt Suc.prems(1) by simp
  then have ui: "unat (i + 1) = unat i + 1"
    by (simp add: unat_word_ariths)
  have "\<exists>b' g'. fallback_loop env (i + 1) (b1, g1) = Some (b', g')
           \<and> length (bytes b') = length (bytes b1)
           \<and> written b' = written b1 \<union> {unat (i + 1)..<length (bytes b1)}
           \<and> g_random g' = g_random g1
           \<and> warned_once g' = warned_once g1
           \<and> debug_log g' = debug_log g1"
  proof (rule Suc.hyps(1))
    show "d = length (bytes b1) - unat (i + 1)" using Suc.hyps(2) by (simp add: len ui)
    show "length (bytes b1) < 2 ^ 32" using Suc.prems(1) by (simp add: len)
    show "unat (i + 1) \<le> length (bytes b1)" using lt by (simp add: len ui)
  qed
  then obtain b' g' where r: "fallback_loop env (i + 1) (b1, g1) = Some (b', g')"
    and l': "length (bytes b') = length (bytes b1)"
    and w': "written b' = written b1 \<union> {unat (i + 1)..<length (bytes b1)}"
    and g': "g_random g' = g_random g1" "warned_once g' = warned_once g1" "debug_log g' = debug_log g1"
    by blast
  have "fallback_loop env i (b, g) = Some (b', g')"
    using lt r by (subst fallback_loop.simps) (simp add: st)
  moreover have "insert (unat i) (written b) \<union> {unat i + 1..<length (bytes b)}
                   = written b \<union> {unat i..<length (bytes b)}"
    using lt by auto
  ultimately show ?case
    using l' w' g' by (simp add: len wr ui g1 fallback_step_snd)
qed

lemma length_os_write [simp]: "length (bytes (os_write k src b)) = length (bytes b)"
  by (simp add: os_write_def Let_def)

lemma written_os_write:
  "written (os_write k src b) = written b \<union> {0..<min k (length (bytes b))}"
  by (simp add: os_write_def Let_def)

lemma length_platform_random [simp]:
  "length (bytes (fst (platform_random env b))) = length (bytes b)"
  by (simp add: platform_random_def Let_def split: platform.split)

lemma written_platform_random_subset:
  "written b = {} \<Longrightarrow> written (fst (platform_random env b)) \<subseteq> {0..<length (bytes b)}"
  by (auto simp add: platform_random_def Let_def written_os_write split: platform.split)

lemma written_platform_random_returned:
  assumes "snd (platform_random env b)" and "length (bytes b) < 2 ^ 32" and "written b = {}"
  shows "written (fst (platform_random env b)) = {0..<length (bytes b)}"
  using assms
  by (auto simp add: platform_random_def Let_def written_os_write split: platform.splits if_splits)

text \<open>
  Every path fills a buffer that is shorter than \<open>2^32\<close> bytes, and returns: the result
  has the same length, every index has been stored to, and \<^verbatim>\<open>_random\<close> is untouched.
\<close>

lemma RandomBytesWithFallback_fills:
  assumes "length buf < 2 ^ 32"
  shows "\<exists>b' g'. RandomBytesWithFallback env buf g = Some (b', g')
           \<and> length (bytes b') = length buf
           \<and> written b' = {0..<length buf}
           \<and> g_random g' = g_random g"
proof -
  let ?b0 = "\<lparr>bytes = buf, written = {}\<rparr>"
  obtain b returned where pr: "platform_random env ?b0 = (b, returned)"
    by (cases "platform_random env ?b0")
  have b: "b = fst (platform_random env ?b0)" and r: "returned = snd (platform_random env ?b0)"
    by (simp_all add: pr)
  have len: "length (bytes b) = length buf" by (simp add: b)
  show ?thesis
  proof (cases returned)
    case True
    then have "written b = {0..<length buf}"
      using written_platform_random_returned [of env ?b0] assms by (simp add: b r)
    with True show ?thesis
      by (simp add: RandomBytesWithFallback_def pr len)
  next
    case False
    let ?g2 = "g\<lparr>warned_once := True,
                 debug_log := debug_log g @ [if warned_once g then 1 else 0]\<rparr>"
    have sub: "written b \<subseteq> {0..<length buf}"
      using written_platform_random_subset [of ?b0 env] by (simp add: b)
    obtain b' g' where l: "fallback_loop env 0 (b, ?g2) = Some (b', g')"
      and l1: "length (bytes b') = length (bytes b)"
      and l2: "written b' = written b \<union> {unat (0::uint)..<length (bytes b)}"
      and l3: "g_random g' = g_random ?g2"
      using fallback_loop_fills [of b 0 env ?g2] assms by (auto simp add: len)
    have "written b' = {0..<length buf}" using l2 sub by (auto simp add: len)
    with False l l1 l3 show ?thesis
      by (simp add: RandomBytesWithFallback_def pr len Let_def)
  qed
qed

text \<open>
  A call that reaches the fallback with a buffer of \<open>2^32\<close> bytes or more never returns.
\<close>

lemma RandomBytesWithFallback_never_returns:
  assumes "reaches_fallback (env, buf)" and "2 ^ 32 \<le> length buf"
  shows "RandomBytesWithFallback env buf g = None"
proof -
  let ?b0 = "\<lparr>bytes = buf, written = {}\<rparr>"
  obtain b returned where pr: "platform_random env ?b0 = (b, returned)"
    by (cases "platform_random env ?b0")
  have "\<not> returned" using assms(1) by (simp add: reaches_fallback_def pr)
  moreover have "length (bytes b) = length buf"
    using length_platform_random [of env ?b0] by (simp add: pr)
  ultimately show ?thesis
    using assms(2) by (simp add: RandomBytesWithFallback_def pr Let_def fallback_loop_never_returns)
qed

text \<open>
  On Windows the count handed to \<^verbatim>\<open>BCryptGenRandom\<close> is the size narrowed to 32 bits: for
  a buffer of \<open>2^32\<close> bytes it is 0, the call succeeds, and the function returns without a
  single byte stored.
\<close>

lemma RandomBytesWithFallback_win32_narrowed:
  assumes "platform env = WIN32" and "0 \<le> os_res env" and "length buf = 2 ^ 32"
  shows "RandomBytesWithFallback env buf g = Some (\<lparr>bytes = buf, written = {}\<rparr>, g)"
  using assms
  by (simp add: RandomBytesWithFallback_def platform_random_def os_write_def Let_def)

text \<open>
  Claim C2 at a buffer of \<open>2^32\<close> bytes on a target without a platform source: the call
  enters the fallback loop and never returns, because the 32-bit counter is always below
  \<^verbatim>\<open>buf.size()\<close>.
\<close>

theorem RandomBytesWithFallback_4GiB_never_returns:
  "RandomBytesWithFallback
     \<lparr>platform = NO_SOURCE, os_res = 0, os_bytes = (\<lambda>_. 0), steady_clock = (\<lambda>_. 0),
      SimpleHash64 = (\<lambda>x. x)\<rparr>
     (replicate (2 ^ 32) 0)
     \<lparr>g_random = \<lparr>state0 = 0, state1 = 0\<rparr>,
      g_interactive_random = \<lparr>state0 = 0, state1 = 0\<rparr>,
      warned_once = False, debug_log = []\<rparr>
   = None"
  by (rule RandomBytesWithFallback_never_returns)
    (simp_all add: reaches_fallback_def platform_random_def)

lemma fallback_loop_keeps_log:
  assumes "fallback_loop env i (b, g) = Some (b', g')" and "unat i \<le> length (bytes b)"
  shows "debug_log g' = debug_log g \<and> warned_once g' = warned_once g"
proof -
  have "length (bytes b) < 2 ^ 32"
    using fallback_loop_returns_imp [OF assms(1)] by simp
  then show ?thesis
    using fallback_loop_fills [of b i env g] assms by auto
qed

lemma RandomBytesWithFallback_log:
  assumes "RandomBytesWithFallback env buf g = Some (b', g')"
  shows "debug_log g' = debug_log g
            @ warning_levels (warned_once g) (if reaches_fallback (env, buf) then 1 else 0)
       \<and> warned_once g' = (warned_once g \<or> reaches_fallback (env, buf))"
proof -
  let ?b0 = "\<lparr>bytes = buf, written = {}\<rparr>"
  obtain b returned where pr: "platform_random env ?b0 = (b, returned)"
    by (cases "platform_random env ?b0")
  show ?thesis
  proof (cases returned)
    case True
    then show ?thesis
      using assms
      by (auto simp add: RandomBytesWithFallback_def pr reaches_fallback_def warning_levels_def)
  next
    case False
    let ?g2 = "g\<lparr>warned_once := True,
                 debug_log := debug_log g @ [if warned_once g then 1 else 0]\<rparr>"
    have "fallback_loop env 0 (b, ?g2) = Some (b', g')"
      using assms False by (simp add: RandomBytesWithFallback_def pr Let_def)
    then have "debug_log g' = debug_log ?g2 \<and> warned_once g' = warned_once ?g2"
      by (rule fallback_loop_keeps_log) simp
    with False show ?thesis
      by (simp add: reaches_fallback_def pr warning_levels_def)
  qed
qed

lemma warning_levels_append:
  "warning_levels w j @ warning_levels (w \<or> 0 < j) k = warning_levels w (j + k)"
  by (cases j; cases k) (auto simp add: warning_levels_def replicate_app_Cons_same replicate_add)

lemma run_calls_log:
  assumes "run_calls cs g = Some g'"
  shows "debug_log g' = debug_log g
            @ warning_levels (warned_once g) (length (filter reaches_fallback cs))
       \<and> warned_once g' = (warned_once g \<or> 0 < length (filter reaches_fallback cs))"
  using assms
proof (induction cs arbitrary: g)
  case Nil
  then show ?case by (simp add: warning_levels_def)
next
  case (Cons c cs)
  obtain env buf where c: "c = (env, buf)" by (cases c)
  from Cons.prems obtain b g1 where
    one: "RandomBytesWithFallback env buf g = Some (b, g1)" and rest: "run_calls cs g1 = Some g'"
    by (auto simp add: c split: option.splits)
  let ?j = "if reaches_fallback (env, buf) then 1 else 0 :: nat"
  let ?k = "length (filter reaches_fallback cs)"
  have s1: "debug_log g1 = debug_log g @ warning_levels (warned_once g) ?j"
    and w1: "warned_once g1 = (warned_once g \<or> 0 < ?j)"
    using RandomBytesWithFallback_log [OF one] by simp_all
  have s2: "debug_log g' = debug_log g1 @ warning_levels (warned_once g1) ?k"
    and w2: "warned_once g' = (warned_once g1 \<or> 0 < ?k)"
    using Cons.IH [OF rest] by simp_all
  have "debug_log g' = debug_log g @ warning_levels (warned_once g) (?j + ?k)"
    by (simp only: s2 s1 w1 append_assoc warning_levels_append)
  moreover have "length (filter reaches_fallback (c # cs)) = ?j + ?k" by (simp add: c)
  ultimately show ?case using w1 w2 by (auto simp add: c)
qed

lemma run_calls_returns:
  assumes "\<forall>c \<in> set cs. length (snd c) < 2 ^ 32"
  shows "\<exists>g'. run_calls cs g = Some g'"
  using assms
proof (induction cs arbitrary: g)
  case Nil
  then show ?case by simp
next
  case (Cons c cs)
  obtain env buf where c: "c = (env, buf)" by (cases c)
  have "length buf < 2 ^ 32" using Cons.prems by (simp add: c)
  then obtain b g1 where "RandomBytesWithFallback env buf g = Some (b, g1)"
    using RandomBytesWithFallback_fills [of buf env g] by blast
  moreover obtain g' where "run_calls cs g1 = Some g'"
    using Cons.IH [of g1] Cons.prems by auto
  ultimately show ?case by (simp add: c)
qed

lemma count_warning_levels: "count_list (warning_levels w k) 0 \<le> 1"
  by (cases k) (auto simp add: warning_levels_def count_list_0_iff)

text \<open>
  Claim C9. Over every sequence of calls of \<^verbatim>\<open>RandomBytesWithFallback\<close>, made one after the
  other, the lines added to the debug output are those of the calls that reach the fallback,
  in order: when \<^verbatim>\<open>warned_once\<close> was clear at the start, the first such call logs at level 0
  and sets the flag, and every later one logs at level 1; when it was set, all log at
  level 1. So at most one line at level 0 is added. A sequence whose buffers are all
  shorter than \<open>2^32\<close> bytes runs to its end. The exchange is modelled for a single thread:
  read the flag, then set it.
\<close>

theorem warned_once_level_0_at_most_once:
  "(run_calls cs g = Some g' \<longrightarrow>
      debug_log g' = debug_log g
         @ warning_levels (warned_once g) (length (filter reaches_fallback cs))
      \<and> warned_once g' = (warned_once g \<or> 0 < length (filter reaches_fallback cs))
      \<and> count_list (debug_log g') 0 \<le> count_list (debug_log g) 0 + 1)
   \<and> ((\<forall>c \<in> set cs. length (snd c) < 2 ^ 32) \<longrightarrow> (\<exists>g''. run_calls cs g = Some g''))"
proof -
  have "count_list (debug_log g') 0 \<le> count_list (debug_log g) 0 + 1"
    if "run_calls cs g = Some g'"
    using run_calls_log [OF that]
      count_warning_levels [of "warned_once g" "length (filter reaches_fallback cs)"]
    by simp
  then show ?thesis
    using run_calls_log [of cs g g'] run_calls_returns [of cs g] by blast
qed

theorem warned_once_level_0_at_most_once_witness:
  "\<exists>g'. run_calls
          [(\<lparr>platform = NO_SOURCE, os_res = 0, os_bytes = (\<lambda>_. 0), steady_clock = (\<lambda>_. 0),
             SimpleHash64 = (\<lambda>x. x)\<rparr>, [1, 2]),
           (\<lparr>platform = ARC4RANDOM, os_res = 0, os_bytes = (\<lambda>_. 0), steady_clock = (\<lambda>_. 0),
             SimpleHash64 = (\<lambda>x. x)\<rparr>, [3]),
           (\<lparr>platform = NO_SOURCE, os_res = 0, os_bytes = (\<lambda>_. 0), steady_clock = (\<lambda>_. 0),
             SimpleHash64 = (\<lambda>x. x)\<rparr>, [4, 5, 6]),
           (\<lparr>platform = GETRANDOM, os_res = 1, os_bytes = (\<lambda>_. 0), steady_clock = (\<lambda>_. 0),
             SimpleHash64 = (\<lambda>x. x)\<rparr>, [7, 8])]
          \<lparr>g_random = \<lparr>state0 = 0, state1 = 0\<rparr>,
           g_interactive_random = \<lparr>state0 = 0, state1 = 0\<rparr>,
           warned_once = False, debug_log = []\<rparr> = Some g'
       \<and> debug_log g' = [0, 1, 1] \<and> warned_once g'"
proof -
  let ?cs = "[(\<lparr>platform = NO_SOURCE, os_res = 0, os_bytes = (\<lambda>_. 0), steady_clock = (\<lambda>_. 0),
             SimpleHash64 = (\<lambda>x. x)\<rparr>, [1, 2]),
           (\<lparr>platform = ARC4RANDOM, os_res = 0, os_bytes = (\<lambda>_. 0), steady_clock = (\<lambda>_. 0),
             SimpleHash64 = (\<lambda>x. x)\<rparr>, [3]),
           (\<lparr>platform = NO_SOURCE, os_res = 0, os_bytes = (\<lambda>_. 0), steady_clock = (\<lambda>_. 0),
             SimpleHash64 = (\<lambda>x. x)\<rparr>, [4, 5, 6]),
           (\<lparr>platform = GETRANDOM, os_res = 1, os_bytes = (\<lambda>_. 0), steady_clock = (\<lambda>_. 0),
             SimpleHash64 = (\<lambda>x. x)\<rparr>, [7, 8])] :: (call_env \<times> u8 list) list"
  let ?g = "\<lparr>g_random = \<lparr>state0 = 0, state1 = 0\<rparr>,
           g_interactive_random = \<lparr>state0 = 0, state1 = 0\<rparr>,
           warned_once = False, debug_log = []\<rparr>"
  have short: "\<forall>c \<in> set ?cs. length (snd c) < 2 ^ 32" by simp
  have k: "length (filter reaches_fallback ?cs) = 3"
    by (simp add: reaches_fallback_def platform_random_def Let_def)
  obtain g' where r: "run_calls ?cs ?g = Some g'"
    using warned_once_level_0_at_most_once [of ?cs ?g] short by blast
  have wl: "warning_levels False 3 = [0, 1, 1]"
    by (simp add: warning_levels_def numeral_3_eq_3)
  have "debug_log g' = debug_log ?g
          @ warning_levels (warned_once ?g) (length (filter reaches_fallback ?cs))
      \<and> warned_once g' = (warned_once ?g \<or> 0 < length (filter reaches_fallback ?cs))"
    using warned_once_level_0_at_most_once [of ?cs ?g g'] r by blast
  then have "debug_log g' = [0, 1, 1] \<and> warned_once g'"
    unfolding k by (simp add: wl)
  with r show ?thesis by blast
qed

end
